theory Spec2Isabelle
  imports Main "HOL-Library.Sublist"
begin

section \<open>Values exchanged with the remote APIs\<close>

text \<open>
  Pages, issues and rich-text documents are the dictionaries, lists and scalars that
  \<^verbatim>\<open>response.json()\<close> returns. A dictionary is an association list in insertion order,
  read with \<^const>\<open>map_of\<close>. A float is kept as mantissa and binary exponent: the scripts
  only ever test a number for truth. Strings are lists of characters with code points
  below 256.
\<close>

datatype json =
    JNull
  | JBool bool
  | JInt int
  | JFloat int int
  | JStr string
  | JArr "json list"
  | JObj "(string \<times> json) list"

text \<open>The exceptions the scripts can raise; \<open>RetryError\<close> wraps the last attempt's exception.\<close>

datatype error =
    TypeError
  | KeyError
  | AttributeError
  | RateLimited
  | HTTPError nat
  | ConnectionError
  | JSONDecodeError
  | RetryError error

definition ebind :: "error + 'a \<Rightarrow> ('a \<Rightarrow> error + 'b) \<Rightarrow> error + 'b" where
  "ebind m f = (case m of Inl e \<Rightarrow> Inl e | Inr x \<Rightarrow> f x)"

subsection \<open>Python operators on these values\<close>

text \<open>\<^verbatim>\<open>str.isspace\<close> on one character, which is also the class \<^verbatim>\<open>\s\<close> of \<^verbatim>\<open>re\<close>.\<close>

definition is_space :: "char \<Rightarrow> bool" where
  "is_space c = (c \<in> {CHR 0x09, CHR 0x0A, CHR 0x0B, CHR 0x0C, CHR 0x0D, CHR 0x1C, CHR 0x1D,
                       CHR 0x1E, CHR 0x1F, CHR 0x20, CHR 0x85, CHR 0xA0})"

definition non_space :: "char \<Rightarrow> bool" where
  "non_space c = (\<not> is_space c)"

text \<open>\<^verbatim>\<open>s.strip()\<close>\<close>

definition strip :: "string \<Rightarrow> string" where
  "strip s = rev (dropWhile is_space (rev (dropWhile is_space s)))"

text \<open>\<^verbatim>\<open>bool(v)\<close>\<close>

fun truthy :: "json \<Rightarrow> bool" where
  "truthy JNull = False"
| "truthy (JBool b) = b"
| "truthy (JInt i) = (i \<noteq> 0)"
| "truthy (JFloat m e) = (m \<noteq> 0)"
| "truthy (JStr s) = (s \<noteq> [])"
| "truthy (JArr xs) = (xs \<noteq> [])"
| "truthy (JObj d) = (d \<noteq> [])"

text \<open>\<^verbatim>\<open>key in v\<close> for a string \<open>key\<close>: key of a dictionary, element of a list, substring of a string.\<close>

fun py_in :: "string \<Rightarrow> json \<Rightarrow> error + bool" where
  "py_in k (JObj d) = Inr (map_of d k \<noteq> None)"
| "py_in k (JArr xs) = Inr (JStr k \<in> set xs)"
| "py_in k (JStr s) = Inr (sublist k s)"
| "py_in k v = Inl TypeError"

text \<open>\<^verbatim>\<open>v[key]\<close> for a string \<open>key\<close>.\<close>

fun py_getitem :: "json \<Rightarrow> string \<Rightarrow> error + json" where
  "py_getitem (JObj d) k = (case map_of d k of None \<Rightarrow> Inl KeyError | Some v \<Rightarrow> Inr v)"
| "py_getitem v k = Inl TypeError"

text \<open>\<^verbatim>\<open>v.get(key)\<close>: only a dictionary has the method.\<close>

fun py_get :: "json \<Rightarrow> string \<Rightarrow> error + json option" where
  "py_get (JObj d) k = Inr (map_of d k)"
| "py_get v k = Inl AttributeError"

text \<open>\<^verbatim>\<open>for x in v\<close>: the elements of a list, the keys of a dictionary, the characters of a string.\<close>

fun py_iter :: "json \<Rightarrow> error + json list" where
  "py_iter (JArr xs) = Inr xs"
| "py_iter (JObj d) = Inr (map (\<lambda>kv. JStr (fst kv)) d)"
| "py_iter (JStr s) = Inr (map (\<lambda>c. JStr [c]) s)"
| "py_iter v = Inl TypeError"

section \<open>Issue tracker: the structured-content extractor\<close>

text \<open>
  \<^verbatim>\<open>if mark.get("type") == "link" and "attrs" in mark and "href" in mark["attrs"]:
      links.append(mark["attrs"]["href"])\<close>
  and the same test on a node, with \<^verbatim>\<open>"inlineCard"\<close> and \<^verbatim>\<open>"url"\<close>. The node is a
  dictionary here: \<^verbatim>\<open>.get\<close> on anything else is an AttributeError before this point.
\<close>

definition tagged_link :: "(string \<times> json) list \<Rightarrow> string \<Rightarrow> string \<Rightarrow> error + json list" where
  "tagged_link d tag key =
     (if map_of d ''type'' = Some (JStr tag) then
        (case map_of d ''attrs'' of
           None \<Rightarrow> Inr []
         | Some a \<Rightarrow>
             ebind (py_in key a) (\<lambda>present.
               if present then ebind (py_getitem a key) (\<lambda>v. Inr [v]) else Inr []))
      else Inr [])"

text \<open>\<^verbatim>\<open>for mark in content["marks"]: ...\<close>\<close>

fun marks_loop :: "json list \<Rightarrow> json list \<Rightarrow> error + json list" where
  "marks_loop [] links = Inr links"
| "marks_loop (mark # rest) links =
     (case mark of
        JObj m \<Rightarrow> ebind (tagged_link m ''link'' ''href'') (\<lambda>found. marks_loop rest (links @ found))
      | _ \<Rightarrow> Inl AttributeError)"

lemma size_map_of:
  "map_of d k = Some v \<Longrightarrow> size v < Suc (size_list (size_prod (\<lambda>_. 0) size) d)"
  by (induction d) (auto split: if_splits)

text \<open>
  \<^verbatim>\<open>extract_text_and_links\<close>; \<open>extract_items\<close> is the body shared by its two
  \<^verbatim>\<open>for item in ...\<close> loops, with the accumulators \<^verbatim>\<open>extracted_text\<close> and \<^verbatim>\<open>links\<close>.
\<close>

function extract_text_and_links :: "json \<Rightarrow> error + (string \<times> json list)"
  and extract_items :: "json list \<Rightarrow> string \<Rightarrow> json list \<Rightarrow> error + (string \<times> json list)"
where
  "extract_text_and_links (JObj d) =
     ebind (case map_of d ''content'' of
              Some (JArr items) \<Rightarrow> extract_items items [] []
            | _ \<Rightarrow> Inr ([], [])) (\<lambda>(text1, links1).
     ebind (case map_of d ''text'' of
              None \<Rightarrow> Inr text1
            | Some (JStr s) \<Rightarrow> Inr (text1 @ s @ '' '')
            | Some _ \<Rightarrow> Inl TypeError) (\<lambda>text2.
     ebind (tagged_link d ''inlineCard'' ''url'') (\<lambda>card.
     ebind (case map_of d ''marks'' of
              None \<Rightarrow> Inr (links1 @ card)
            | Some ms \<Rightarrow> ebind (py_iter ms) (\<lambda>marks. marks_loop marks (links1 @ card))) (\<lambda>links2.
     Inr (strip text2, links2)))))"
| "extract_text_and_links (JArr items) =
     ebind (extract_items items [] []) (\<lambda>(text1, links1). Inr (strip text1, links1))"
| "extract_text_and_links JNull = Inr (strip [], [])"
| "extract_text_and_links (JBool b) = Inr (strip [], [])"
| "extract_text_and_links (JInt i) = Inr (strip [], [])"
| "extract_text_and_links (JFloat m e) = Inr (strip [], [])"
| "extract_text_and_links (JStr s) = Inr (strip [], [])"
| "extract_items [] text links = Inr (text, links)"
| "extract_items (item # rest) text links =
     ebind (extract_text_and_links item) (\<lambda>(t, found_links).
       extract_items rest (text @ t @ '' '') (links @ found_links))"
  by pat_completeness auto
termination
  by (relation "measure (\<lambda>x. case x of Inl j \<Rightarrow> 2 * size j
                               | Inr (items, _) \<Rightarrow> 2 * size_list size items + 1)")
     (auto dest: size_map_of)

section \<open>Regular expressions as \<^verbatim>\<open>re\<close> matches them\<close>

text \<open>
  The constructs the scripts' patterns use. \<open>Many\<close> and \<open>Many1\<close> are the greedy
  \<^verbatim>\<open>[class]*\<close> and \<^verbatim>\<open>[class]+\<close>; \<open>Group\<close> is a capturing group.
\<close>

datatype regex =
    Lit string
  | Optional regex
  | Either regex regex
  | Many "char \<Rightarrow> bool"
  | Many1 "char \<Rightarrow> bool"
  | Then regex regex
  | Group regex

text \<open>What is left of the input after \<^verbatim>\<open>[class]*\<close>, the longest repetition first.\<close>

fun many :: "(char \<Rightarrow> bool) \<Rightarrow> string \<Rightarrow> string list" where
  "many p [] = [[]]"
| "many p (c # cs) = (if p c then many p cs @ [c # cs] else [c # cs])"

text \<open>
  Every way the pattern matches at the start of the input, as the captured groups and the
  input left over, in the order the backtracking matcher tries them: the head of the list
  is the match \<^verbatim>\<open>re\<close> reports.
\<close>

fun run :: "regex \<Rightarrow> string \<Rightarrow> (string list \<times> string) list" where
  "run (Lit l) s = (if prefix l s then [([], drop (length l) s)] else [])"
| "run (Optional r) s = run r s @ [([], s)]"
| "run (Either a b) s = run a s @ run b s"
| "run (Many p) s = map (Pair []) (many p s)"
| "run (Many1 p) s =
     (case s of [] \<Rightarrow> [] | c # cs \<Rightarrow> if p c then map (Pair []) (many p cs) else [])"
| "run (Then a b) s =
     concat (map (\<lambda>(g1, s1). map (\<lambda>(g2, s2). (g1 @ g2, s2)) (run b s1)) (run a s))"
| "run (Group r) s = map (\<lambda>(g, s'). (take (length s - length s') s # g, s')) (run r s)"

text \<open>
  \<^verbatim>\<open>re.finditer\<close>: the matches from left to right, none overlapping, each as its text
  and its groups. After an empty match the scan moves one character on; none of the
  patterns below matches the empty string.
\<close>

function scan :: "regex \<Rightarrow> string \<Rightarrow> (string \<times> string list) list" where
  "scan r s =
     (case run r s of
        [] \<Rightarrow> (case s of [] \<Rightarrow> [] | c # cs \<Rightarrow> scan r cs)
      | (g, s') # _ \<Rightarrow>
          if length s' < length s then (take (length s - length s') s, g) # scan r s'
          else ([], g) # (case s of [] \<Rightarrow> [] | c # cs \<Rightarrow> scan r cs))"
  by pat_completeness auto
termination
  by (relation "measure (\<lambda>(r, s). length s)") auto

text \<open>\<^verbatim>\<open>re.findall\<close>: the first group of each match, or its text when the pattern has no group.\<close>

definition findall :: "regex \<Rightarrow> string \<Rightarrow> string list" where
  "findall r s = map (\<lambda>(whole, g). case g of [] \<Rightarrow> whole | x # _ \<Rightarrow> x) (scan r s)"

text \<open>\<^verbatim>\<open>re.search(r, s)\<close> as a truth value.\<close>

definition search :: "regex \<Rightarrow> string \<Rightarrow> bool" where
  "search r s = (scan r s \<noteq> [])"

fun seq :: "regex list \<Rightarrow> regex" where
  "seq [] = Lit []"
| "seq [r] = r"
| "seq (r # rs) = Then r (seq rs)"

subsection \<open>The patterns of the two scripts\<close>

text \<open>\<^verbatim>\<open>r"https?://(?:drive|docs)\.google\.com/\S+"\<close> (jiralinks.py)\<close>

definition JIRA_HARDLINK_REGEX :: regex where
  "JIRA_HARDLINK_REGEX =
     seq [Lit ''http'', Optional (Lit ''s''), Lit ''://'', Either (Lit ''drive'') (Lit ''docs''),
          Lit ''.google.com/'', Many1 non_space]"

text \<open>\<^verbatim>\<open>r"https?://[^\s]+"\<close> (jiralinks.py)\<close>

definition url_pattern :: regex where
  "url_pattern = seq [Lit ''http'', Optional (Lit ''s''), Lit ''://'', Many1 non_space]"

text \<open>\<^verbatim>\<open>r"https?://(?:drive|docs)\.google\.com\S+"\<close> (confluencelinks.py)\<close>

definition GOOGLE_DRIVE_HARDLINK_REGEX :: regex where
  "GOOGLE_DRIVE_HARDLINK_REGEX =
     seq [Lit ''http'', Optional (Lit ''s''), Lit ''://'', Either (Lit ''drive'') (Lit ''docs''),
          Lit ''.google.com'', Many1 non_space]"

text \<open>
  \<^verbatim>\<open>r'<ac:structured-macro[^>]*ac:name="inline-card"[^>]*data-card-url="([^"]*drive\.google\.com[^"]*)"'\<close>
  (confluencelinks.py)
\<close>

definition not_gt :: "char \<Rightarrow> bool" where
  "not_gt c = (c \<noteq> CHR ''>'')"

definition not_quote :: "char \<Rightarrow> bool" where
  "not_quote c = (c \<noteq> CHR 0x22)"

definition GOOGLE_DRIVE_SMARTLINK_REGEX :: regex where
  "GOOGLE_DRIVE_SMARTLINK_REGEX =
     seq [Lit ''<ac:structured-macro'', Many not_gt,
          Lit (''ac:name='' @ [CHR 0x22] @ ''inline-card'' @ [CHR 0x22]), Many not_gt,
          Lit (''data-card-url='' @ [CHR 0x22]),
          Group (seq [Many not_quote, Lit ''drive.google.com'', Many not_quote]),
          Lit [CHR 0x22]]"

section \<open>Link classifiers\<close>

text \<open>\<^verbatim>\<open>"drive.google.com" in link or "docs.google.com" in link\<close>\<close>

definition is_google :: "json \<Rightarrow> error + bool" where
  "is_google link =
     ebind (py_in ''drive.google.com'' link) (\<lambda>found.
       if found then Inr True else py_in ''docs.google.com'' link)"

text \<open>\<^verbatim>\<open>for link in links: if ...: google_links.append(link)\<close>\<close>

fun links_loop :: "json list \<Rightarrow> json list \<Rightarrow> error + json list" where
  "links_loop [] google_links = Inr google_links"
| "links_loop (link # rest) google_links =
     ebind (is_google link) (\<lambda>keep.
       links_loop rest (if keep then google_links @ [link] else google_links))"

text \<open>\<^verbatim>\<open>extract_google_drive_links\<close> of jiralinks.py\<close>

definition jira_extract_google_drive_links :: "json \<Rightarrow> error + json list" where
  "jira_extract_google_drive_links text_or_structure =
     ebind (case text_or_structure of
              JObj d \<Rightarrow> extract_text_and_links text_or_structure
            | JArr xs \<Rightarrow> extract_text_and_links text_or_structure
            | JStr s \<Rightarrow> Inr (s, [])
            | _ \<Rightarrow> Inr ([], [])) (\<lambda>(text, links).
       links_loop links
         (map JStr (filter (\<lambda>url. sublist ''drive.google.com'' url \<or> sublist ''docs.google.com'' url)
                      (findall url_pattern text))))"

datatype link_type = Hardcoded | SmartLink

text \<open>
  \<^verbatim>\<open>extract_google_drive_links\<close> of confluencelinks.py; \<^verbatim>\<open>re.findall\<close> raises a
  TypeError on anything but a string.
\<close>

definition wiki_extract_google_drive_links :: "json \<Rightarrow> error + (string \<times> link_type) list" where
  "wiki_extract_google_drive_links page_content =
     (case page_content of
        JStr s \<Rightarrow>
          Inr (map (\<lambda>link. (link, Hardcoded)) (findall GOOGLE_DRIVE_HARDLINK_REGEX s) @
               map (\<lambda>link. (link, SmartLink)) (findall GOOGLE_DRIVE_SMARTLINK_REGEX s))
      | _ \<Rightarrow> Inl TypeError)"

section \<open>The remote service and the rate-limited fetcher\<close>

text \<open>
  The remote service is a script: the responses it will give, in order, to the requests
  the run makes. \<^verbatim>\<open>requests.get\<close> takes the next one; when none is left the request
  fails like a dropped connection. The world also records every request sent, every
  back-off sleep and the spaces file once written.
\<close>

datatype response = Response nat "json option" | NoResponse

datatype request =
    WikiGet string "(string \<times> json) list"
  | JiraProjects
  | JiraSearch json nat nat
  | JiraRemoteLinks json

record world =
  pending :: "response list"
  asked :: "request list"
  slept :: "nat list"
  spaces_csv :: "(json \<times> json) list option"

definition requests_get :: "request \<Rightarrow> world \<Rightarrow> response \<times> world" where
  "requests_get req w =
     (case pending w of
        [] \<Rightarrow> (NoResponse, w\<lparr>asked := asked w @ [req]\<rparr>)
      | r # rs \<Rightarrow> (r, w\<lparr>pending := rs, asked := asked w @ [req]\<rparr>))"

text \<open>
  The body that \<^verbatim>\<open>confluence_request\<close> and \<^verbatim>\<open>jira_request\<close> share: 429 raises the
  retryable exception, \<^verbatim>\<open>raise_for_status\<close> raises on the other 4xx and 5xx codes, and
  \<^verbatim>\<open>response.json()\<close> raises on a body that is not JSON.
\<close>

definition request_body :: "request \<Rightarrow> world \<Rightarrow> (error + json) \<times> world" where
  "request_body req w =
     (case requests_get req w of
        (NoResponse, w') \<Rightarrow> (Inl ConnectionError, w')
      | (Response status_code body, w') \<Rightarrow>
          (if status_code = 429 then Inl RateLimited
           else if status_code \<noteq> 200 \<and> 400 \<le> status_code \<and> status_code < 600
             then Inl (HTTPError status_code)
           else (case body of None \<Rightarrow> Inl JSONDecodeError | Some j \<Rightarrow> Inr j), w'))"

text \<open>
  The decorator \<^verbatim>\<open>@retry(stop=stop_after_attempt(n), wait=wait_exponential(...))\<close> of the
  tenacity library: call again after any exception, sleep \<open>wait attempt_number\<close> in
  between, and raise RetryError once attempt \<open>n\<close> has failed. \<open>wait_exponential\<close> is
  \<^verbatim>\<open>max(min, min(multiplier * 2 ** (attempt_number - 1), max))\<close>.
\<close>

definition wait_exponential :: "nat \<Rightarrow> nat \<Rightarrow> nat \<Rightarrow> nat \<Rightarrow> nat" where
  "wait_exponential multiplier lo hi attempt_number =
     max lo (min (multiplier * 2 ^ (attempt_number - 1)) hi)"

function retry_call ::
  "nat \<Rightarrow> (nat \<Rightarrow> nat) \<Rightarrow> (world \<Rightarrow> (error + 'a) \<times> world) \<Rightarrow> nat \<Rightarrow> world \<Rightarrow> (error + 'a) \<times> world"
where
  "retry_call stop wait f attempt_number w =
     (case f w of
        (Inr x, w') \<Rightarrow> (Inr x, w')
      | (Inl e, w') \<Rightarrow>
          if stop \<le> attempt_number then (Inl (RetryError e), w')
          else retry_call stop wait f (Suc attempt_number)
                 (w'\<lparr>slept := slept w' @ [wait attempt_number]\<rparr>))"
  by pat_completeness auto
termination
  by (relation "measure (\<lambda>(stop, wait, f, attempt_number, w). stop - attempt_number)") auto

text \<open>\<^verbatim>\<open>@retry(stop=stop_after_attempt(5), wait=wait_exponential(multiplier=1, min=2, max=10))\<close>\<close>

definition confluence_request :: "string \<Rightarrow> (string \<times> json) list \<Rightarrow> world \<Rightarrow> (error + json) \<times> world" where
  "confluence_request url params w =
     retry_call 5 (wait_exponential 1 2 10) (request_body (WikiGet url params)) 1 w"

text \<open>\<^verbatim>\<open>@retry(stop=stop_after_attempt(5), wait=wait_exponential(min=2, max=10))\<close>\<close>

definition jira_request :: "request \<Rightarrow> world \<Rightarrow> (error + json) \<times> world" where
  "jira_request req w = retry_call 5 (wait_exponential 1 2 10) (request_body req) 1 w"

lemma request_body_pending:
  "request_body req w = (res, w') \<Longrightarrow>
   length (pending w') \<le> length (pending w) \<and>
   (\<forall>x. res = Inr x \<longrightarrow> length (pending w') < length (pending w))"
  by (auto simp: request_body_def requests_get_def split: list.splits response.splits if_splits option.splits)

lemma retry_call_pending:
  assumes f: "\<And>w res w'. f w = (res, w') \<Longrightarrow>
             length (pending w') \<le> length (pending w) \<and>
             (\<forall>x. res = Inr x \<longrightarrow> length (pending w') < length (pending w))"
    and r: "retry_call stop wait f n w = (res, w')"
  shows "length (pending w') \<le> length (pending w) \<and>
         (\<forall>x. res = Inr x \<longrightarrow> length (pending w') < length (pending w))"
  using r
proof (induction "stop - n" arbitrary: n w)
  case 0
  obtain r1 w1 where fw: "f w = (r1, w1)" by (cases "f w")
  from 0 have "stop \<le> n" by simp
  with "0.prems" fw f [OF fw] show ?case
    by (cases r1) (auto simp: retry_call.simps [of stop wait f n w])
next
  case (Suc k)
  obtain r1 w1 where fw: "f w = (r1, w1)" by (cases "f w")
  show ?case
  proof (cases r1)
    case (Inr x)
    with Suc.prems fw f [OF fw] show ?thesis
      by (simp add: retry_call.simps [of stop wait f n w])
  next
    case (Inl e)
    from Suc.hyps(2) have n: "\<not> stop \<le> n" "k = stop - Suc n" by simp_all
    with Suc.prems fw Inl
    have "retry_call stop wait f (Suc n) (w1\<lparr>slept := slept w1 @ [wait n]\<rparr>) = (res, w')"
      by (simp add: retry_call.simps [of stop wait f n w])
    from Suc.hyps(1) [OF n(2) this] f [OF fw] show ?thesis by auto
  qed
qed

lemma confluence_request_pending:
  assumes "confluence_request url params w = (Inr data, w')"
  shows "length (pending w') < length (pending w)"
proof -
  have r: "retry_call 5 (wait_exponential 1 2 10) (request_body (WikiGet url params)) 1 w =
           (Inr data, w')"
    using assms by (simp add: confluence_request_def)
  show ?thesis
    using retry_call_pending [where f = "request_body (WikiGet url params)",
        OF request_body_pending [where req = "WikiGet url params"] r]
    by simp
qed

lemma jira_request_pending:
  assumes "jira_request req w = (Inr data, w')"
  shows "length (pending w') < length (pending w)"
proof -
  have r: "retry_call 5 (wait_exponential 1 2 10) (request_body req) 1 w = (Inr data, w')"
    using assms by (simp add: jira_request_def)
  show ?thesis
    using retry_call_pending [where f = "request_body req",
        OF request_body_pending [where req = req] r]
    by simp
qed

section \<open>Paginators\<close>

subsection \<open>Wiki: following the \<^verbatim>\<open>next\<close> link\<close>

text \<open>
  The \<^verbatim>\<open>while url:\<close> loop that \<^verbatim>\<open>get_all_spaces\<close> and \<^verbatim>\<open>get_all_pages\<close> share (they
  differ in their log messages only). \<open>None\<close> is the \<^verbatim>\<open>return []\<close> inside the loop;
  \<open>Some records\<close> is the list accumulated when the loop ends, by its condition or by the
  \<^verbatim>\<open>break\<close> of the exception handler.
\<close>

function cursor_loop ::
  "string \<Rightarrow> string \<Rightarrow> (string \<times> json) list \<Rightarrow> json list \<Rightarrow> world \<Rightarrow> json list option \<times> world"
where
  "cursor_loop base url params records w =
     (if url = [] then (Some records, w)
      else
        (case confluence_request url params w of
           (Inl e, w') \<Rightarrow> (Some records, w')
         | (Inr data, w') \<Rightarrow>
             (case py_get data ''results'' of
                Inl e \<Rightarrow> (Some records, w')
              | Inr None \<Rightarrow> (None, w')
              | Inr (Some results) \<Rightarrow>
                  if \<not> truthy results then (None, w')
                  else
                    (case py_iter results of
                       Inl e \<Rightarrow> (Some records, w')
                     | Inr found \<Rightarrow>
                         (case ebind (py_getitem data ''_links'') (\<lambda>links. py_get links ''next'') of
                            Inl e \<Rightarrow> (Some (records @ found), w')
                          | Inr None \<Rightarrow> (Some (records @ found), w')
                          | Inr (Some next) \<Rightarrow>
                              if \<not> truthy next then (Some (records @ found), w')
                              else
                                (case next of
                                   JStr path \<Rightarrow> cursor_loop base (base @ path) params (records @ found) w'
                                 | _ \<Rightarrow> (Some (records @ found), w')))))))"
  by pat_completeness auto
termination
  by (relation "measure (\<lambda>(base, url, params, records, w). length (pending w))")
     (auto dest: confluence_request_pending [OF sym])

text \<open>
  The two loops after \<^verbatim>\<open>get_all_spaces\<close> has left its \<^verbatim>\<open>while\<close>: both read
  \<^verbatim>\<open>space['key']\<close> and \<^verbatim>\<open>space['name']\<close> of every space, the second to write the row.
\<close>

fun space_rows :: "json list \<Rightarrow> error + (json \<times> json) list" where
  "space_rows [] = Inr []"
| "space_rows (space # rest) =
     ebind (py_getitem space ''key'') (\<lambda>key.
     ebind (py_getitem space ''name'') (\<lambda>name.
     ebind (space_rows rest) (\<lambda>rows. Inr ((key, name) # rows))))"

definition get_all_spaces :: "string \<Rightarrow> world \<Rightarrow> (error + json list) \<times> world" where
  "get_all_spaces base w =
     (case cursor_loop base (base @ ''/rest/api/space'') [(''limit'', JInt 100)] [] w of
        (None, w') \<Rightarrow> (Inr [], w')
      | (Some spaces, w') \<Rightarrow>
          (case space_rows spaces of
             Inl e \<Rightarrow> (Inl e, w')
           | Inr rows \<Rightarrow> (Inr spaces, w'\<lparr>spaces_csv := Some rows\<rparr>)))"

definition get_all_pages :: "string \<Rightarrow> json \<Rightarrow> world \<Rightarrow> json list \<times> world" where
  "get_all_pages base space_key w =
     (case cursor_loop base (base @ ''/rest/api/content'')
             [(''type'', JStr ''page''), (''spaceKey'', space_key),
              (''expand'', JStr ''body.storage,version''), (''status'', JStr ''current''),
              (''limit'', JInt 100)] [] w of
        (None, w') \<Rightarrow> ([], w')
      | (Some pages, w') \<Rightarrow> (pages, w'))"

subsection \<open>Issue tracker: advancing \<^verbatim>\<open>startAt\<close>\<close>

text \<open>
  The \<^verbatim>\<open>while True:\<close> loop of \<^verbatim>\<open>get_all_issues\<close>. Nothing catches an exception here:
  one raised by \<^verbatim>\<open>jira_request\<close> leaves the function.
\<close>

function issues_loop ::
  "json \<Rightarrow> nat \<Rightarrow> nat \<Rightarrow> json list \<Rightarrow> world \<Rightarrow> (error + json list) \<times> world"
where
  "issues_loop project_key max_results start_at issues w =
     (case jira_request (JiraSearch project_key start_at max_results) w of
        (Inl e, w') \<Rightarrow> (Inl e, w')
      | (Inr data, w') \<Rightarrow>
          (case ebind (py_get data ''issues'')
                  (\<lambda>found. py_iter (case found of None \<Rightarrow> JArr [] | Some v \<Rightarrow> v)) of
             Inl e \<Rightarrow> (Inl e, w')
           | Inr batch_issues \<Rightarrow>
               if length batch_issues < max_results then (Inr (issues @ batch_issues), w')
               else issues_loop project_key max_results (start_at + max_results)
                      (issues @ batch_issues) w'))"
  by pat_completeness auto
termination
  by (relation "measure (\<lambda>(project_key, max_results, start_at, issues, w). length (pending w))")
     (auto dest: jira_request_pending [OF sym])

definition get_all_issues :: "json \<Rightarrow> world \<Rightarrow> (error + json list) \<times> world" where
  "get_all_issues project_key w = issues_loop project_key 100 0 [] w"

definition get_all_projects :: "world \<Rightarrow> (error + json) \<times> world" where
  "get_all_projects w = jira_request JiraProjects w"

text \<open>
  The comprehension of \<^verbatim>\<open>get_issue_links\<close>:
  \<^verbatim>\<open>[link.get("object", {}).get("url", "") for link in data if "object" in link]\<close>
\<close>

fun remote_urls :: "json list \<Rightarrow> error + json list" where
  "remote_urls [] = Inr []"
| "remote_urls (link # rest) =
     ebind (py_in ''object'' link) (\<lambda>present.
       if present then
         ebind (py_get link ''object'') (\<lambda>obj.
         ebind (py_get (case obj of None \<Rightarrow> JObj [] | Some v \<Rightarrow> v) ''url'') (\<lambda>url.
         ebind (remote_urls rest) (\<lambda>urls.
           Inr ((case url of None \<Rightarrow> JStr [] | Some v \<Rightarrow> v) # urls))))
       else remote_urls rest)"

definition get_issue_links :: "json \<Rightarrow> world \<Rightarrow> json list \<times> world" where
  "get_issue_links issue_key w =
     (case jira_request (JiraRemoteLinks issue_key) w of
        (Inl e, w') \<Rightarrow> ([], w')
      | (Inr data, w') \<Rightarrow>
          (case ebind (py_iter data) remote_urls of
             Inl e \<Rightarrow> ([], w')
           | Inr urls \<Rightarrow> (urls, w')))"

section \<open>Report rows\<close>

text \<open>
  A row of either report is a list of cells. The cells keep the values the scripts put
  there, so that no Python formatting has to be modelled: the page URL is its three
  variable parts next to the base URL, an exception is the exception itself where the
  script stores \<^verbatim>\<open>str(e)\<close>, and the label of an issue-tracker row is a \<open>source\<close>.
\<close>

datatype source = Summary | Description | Comment nat | Field string | Environment | RemoteLink

datatype cell =
    Val json
  | Txt string
  | Kind link_type
  | PageUrl string json json string
  | Raised error
  | Src source

type_synonym row = "cell list"

section \<open>Issue tracker: processing one issue, and the run\<close>

text \<open>\<^verbatim>\<open>v.get(key, default)\<close>\<close>

definition get_or :: "json \<Rightarrow> string \<Rightarrow> json \<Rightarrow> error + json" where
  "get_or v k dflt = ebind (py_get v k) (\<lambda>found. Inr (case found of None \<Rightarrow> dflt | Some x \<Rightarrow> x))"

text \<open>\<^verbatim>\<open>for link in ...: results.append([project_key, issue_key, summary, link, label])\<close>\<close>

definition jira_rows :: "json \<Rightarrow> json \<Rightarrow> json \<Rightarrow> source \<Rightarrow> json list \<Rightarrow> row list" where
  "jira_rows project_key issue_key summary label links =
     map (\<lambda>link. [Val project_key, Val issue_key, Val summary, Val link, Src label]) links"

text \<open>\<^verbatim>\<open>for i, comment in enumerate(comments): ...\<close>\<close>

fun comments_loop ::
  "json \<Rightarrow> json \<Rightarrow> json \<Rightarrow> nat \<Rightarrow> json list \<Rightarrow> row list \<Rightarrow> error + row list"
where
  "comments_loop project_key issue_key summary i [] results = Inr results"
| "comments_loop project_key issue_key summary i (comment # rest) results =
     ebind (get_or comment ''body'' (JObj [])) (\<lambda>comment_body.
     ebind (jira_extract_google_drive_links comment_body) (\<lambda>comment_links.
       comments_loop project_key issue_key summary (Suc i) rest
         (results @ jira_rows project_key issue_key summary (Comment (Suc i)) comment_links)))"

text \<open>\<^verbatim>\<open>for field_name, field_value in issue["fields"].items(): ...\<close>\<close>

fun fields_loop ::
  "json \<Rightarrow> json \<Rightarrow> json \<Rightarrow> (string \<times> json) list \<Rightarrow> row list \<Rightarrow> error + row list"
where
  "fields_loop project_key issue_key summary [] results = Inr results"
| "fields_loop project_key issue_key summary ((field_name, field_value) # rest) results =
     (if prefix ''customfield_'' field_name then
        ebind (jira_extract_google_drive_links field_value) (\<lambda>custom_field_links.
          fields_loop project_key issue_key summary rest
            (results @ jira_rows project_key issue_key summary (Field field_name) custom_field_links))
      else fields_loop project_key issue_key summary rest results)"

text \<open>
  \<^verbatim>\<open>for link in remote_links: if re.search(GOOGLE_DRIVE_HARDLINK_REGEX, link): ...\<close>;
  \<^verbatim>\<open>re.search\<close> raises a TypeError on anything but a string.
\<close>

fun remote_loop ::
  "json \<Rightarrow> json \<Rightarrow> json \<Rightarrow> json list \<Rightarrow> row list \<Rightarrow> error + row list"
where
  "remote_loop project_key issue_key summary [] results = Inr results"
| "remote_loop project_key issue_key summary (link # rest) results =
     (case link of
        JStr s \<Rightarrow>
          remote_loop project_key issue_key summary rest
            (if search JIRA_HARDLINK_REGEX s
             then results @ jira_rows project_key issue_key summary RemoteLink [link]
             else results)
      | _ \<Rightarrow> Inl TypeError)"

text \<open>
  The body of the second \<^verbatim>\<open>for issue in issues:\<close> loop of \<^verbatim>\<open>process_jira\<close>. There is no
  \<^verbatim>\<open>try\<close> in it: an exception leaves \<^verbatim>\<open>process_jira\<close>.
\<close>

definition process_issue :: "json \<Rightarrow> json \<Rightarrow> row list \<Rightarrow> world \<Rightarrow> (error + row list) \<times> world" where
  "process_issue project_key issue results w =
     (case
        ebind (py_getitem issue ''key'') (\<lambda>issue_key.
        ebind (py_getitem issue ''fields'') (\<lambda>fields.
        ebind (get_or fields ''summary'' (JStr ''N/A'')) (\<lambda>summary.
        ebind (get_or fields ''description'' (JObj [])) (\<lambda>description.
        ebind (get_or fields ''comment'' (JObj [])) (\<lambda>comment.
        ebind (get_or comment ''comments'' (JArr [])) (\<lambda>comments.
        ebind (jira_extract_google_drive_links summary) (\<lambda>summary_links.
        ebind (jira_extract_google_drive_links description) (\<lambda>description_links.
        ebind (py_iter comments) (\<lambda>comment_list.
        ebind (comments_loop project_key issue_key summary 0 comment_list
                 (results @ jira_rows project_key issue_key summary Summary summary_links
                          @ jira_rows project_key issue_key summary Description description_links))
          (\<lambda>results3.
        ebind (fields_loop project_key issue_key summary
                 (case fields of JObj d \<Rightarrow> d | _ \<Rightarrow> []) results3) (\<lambda>results4.
        ebind (get_or fields ''environment'' JNull) (\<lambda>environment.
        ebind (if truthy environment then
                 ebind (jira_extract_google_drive_links environment) (\<lambda>environment_links.
                   Inr (results4 @ jira_rows project_key issue_key summary Environment environment_links))
               else Inr results4) (\<lambda>results5.
          Inr (issue_key, summary, results5))))))))))))))
      of
        Inl e \<Rightarrow> (Inl e, w)
      | Inr (issue_key, summary, results5) \<Rightarrow>
          (case get_issue_links issue_key w of
             (remote_links, w') \<Rightarrow>
               (remote_loop project_key issue_key summary remote_links results5, w')))"

fun issues_process :: "json \<Rightarrow> json list \<Rightarrow> row list \<Rightarrow> world \<Rightarrow> (error + row list) \<times> world" where
  "issues_process project_key [] results w = (Inr results, w)"
| "issues_process project_key (issue # rest) results w =
     (case process_issue project_key issue results w of
        (Inl e, w') \<Rightarrow> (Inl e, w')
      | (Inr results', w') \<Rightarrow> issues_process project_key rest results' w')"

text \<open>
  The first \<^verbatim>\<open>for issue in issues:\<close> loop only logs, but its f-strings read
  \<^verbatim>\<open>issue['key']\<close> and \<^verbatim>\<open>issue['fields'].keys()\<close> of every issue.
\<close>

fun check_issues :: "json list \<Rightarrow> error + unit" where
  "check_issues [] = Inr ()"
| "check_issues (issue # rest) =
     ebind (py_getitem issue ''key'') (\<lambda>issue_key.
     ebind (py_getitem issue ''fields'') (\<lambda>fields.
       case fields of JObj d \<Rightarrow> check_issues rest | _ \<Rightarrow> Inl AttributeError))"

fun projects_loop :: "json list \<Rightarrow> row list \<Rightarrow> world \<Rightarrow> (error + row list) \<times> world" where
  "projects_loop [] results w = (Inr results, w)"
| "projects_loop (project # rest) results w =
     (case py_getitem project ''key'' of
        Inl e \<Rightarrow> (Inl e, w)
      | Inr project_key \<Rightarrow>
          (case get_all_issues project_key w of
             (Inl e, w') \<Rightarrow> (Inl e, w')
           | (Inr issues, w') \<Rightarrow>
               (case check_issues issues of
                  Inl e \<Rightarrow> (Inl e, w')
                | Inr u \<Rightarrow>
                    (case issues_process project_key issues results w' of
                       (Inl e, w'') \<Rightarrow> (Inl e, w'')
                     | (Inr results', w'') \<Rightarrow> projects_loop rest results' w''))))"

text \<open>
  \<^verbatim>\<open>process_jira\<close>, up to the rows handed to the report writer (which writes the file
  only when there is a row).
\<close>

definition process_jira :: "world \<Rightarrow> (error + row list) \<times> world" where
  "process_jira w =
     (case get_all_projects w of
        (Inl e, w') \<Rightarrow> (Inl e, w')
      | (Inr projects, w') \<Rightarrow>
          if \<not> truthy projects then (Inr [], w')
          else (case py_iter projects of
                  Inl e \<Rightarrow> (Inl e, w')
                | Inr project_list \<Rightarrow> projects_loop project_list [] w'))"

section \<open>Wiki: processing one page, and the run\<close>

text \<open>\<^verbatim>\<open>page_title.replace(' ', '-')\<close>\<close>

definition dashed :: "string \<Rightarrow> string" where
  "dashed title = map (\<lambda>c. if c = CHR '' '' then CHR ''-'' else c) title"

text \<open>
  The body of \<^verbatim>\<open>for page in pages:\<close>. The four reads before the \<^verbatim>\<open>try\<close> can raise out
  of the run; what the \<^verbatim>\<open>try\<close> encloses ends in the sentinel row instead.
\<close>

definition process_page :: "string \<Rightarrow> json \<Rightarrow> json \<Rightarrow> row list \<Rightarrow> error + row list" where
  "process_page base space_key page results =
     ebind (py_getitem page ''id'') (\<lambda>page_id.
     ebind (py_getitem page ''title'') (\<lambda>page_title.
     ebind (ebind (py_getitem page ''version'') (\<lambda>version. py_getitem version ''when''))
       (\<lambda>last_modified.
     (case page_title of
        JStr title \<Rightarrow>
          (case ebind (py_getitem page ''body'') (\<lambda>body.
                ebind (py_getitem body ''storage'') (\<lambda>storage.
                ebind (py_getitem storage ''value'') wiki_extract_google_drive_links)) of
             Inl e \<Rightarrow>
               Inr (results @
                    [[Val space_key, Val page_title, Txt ''ERROR'', Txt ''N/A'', Raised e, Txt ''N/A'']])
           | Inr links \<Rightarrow>
               Inr (results @
                    map (\<lambda>(link, kind).
                          [Val space_key, Val page_title, Txt link, Kind kind,
                           PageUrl base space_key page_id (dashed title), Val last_modified])
                        links))
      | _ \<Rightarrow> Inl AttributeError))))"

fun pages_process :: "string \<Rightarrow> json \<Rightarrow> json list \<Rightarrow> row list \<Rightarrow> error + row list" where
  "pages_process base space_key [] results = Inr results"
| "pages_process base space_key (page # rest) results =
     ebind (process_page base space_key page results) (pages_process base space_key rest)"

fun spaces_loop :: "string \<Rightarrow> json list \<Rightarrow> row list \<Rightarrow> world \<Rightarrow> (error + row list) \<times> world" where
  "spaces_loop base [] results w = (Inr results, w)"
| "spaces_loop base (space # rest) results w =
     (case py_getitem space ''key'' of
        Inl e \<Rightarrow> (Inl e, w)
      | Inr space_key \<Rightarrow>
          (case get_all_pages base space_key w of
             (pages, w') \<Rightarrow>
               if pages = [] then spaces_loop base rest results w'
               else (case pages_process base space_key pages results of
                       Inl e \<Rightarrow> (Inl e, w')
                     | Inr results' \<Rightarrow> spaces_loop base rest results' w')))"

text \<open>\<^verbatim>\<open>process_confluence\<close>, up to the rows handed to the report writer.\<close>

definition process_confluence :: "string \<Rightarrow> world \<Rightarrow> (error + row list) \<times> world" where
  "process_confluence base w =
     (case get_all_spaces base w of
        (Inl e, w') \<Rightarrow> (Inl e, w')
      | (Inr spaces, w') \<Rightarrow>
          if spaces = [] then (Inr [], w') else spaces_loop base spaces [] w')"

section \<open>Vocabulary of the properties\<close>

text \<open>
  What the properties below say about a node, read off its dictionary: the children in
  its \<^verbatim>\<open>content\<close> list, its own text with the space the extractor puts after it, the
  value of \<open>attrs.key\<close> of a node or mark of a given type, and its marks.
\<close>

definition children :: "(string \<times> json) list \<Rightarrow> json list" where
  "children d = (case map_of d ''content'' of Some (JArr cs) \<Rightarrow> cs | _ \<Rightarrow> [])"

definition own_text :: "(string \<times> json) list \<Rightarrow> string" where
  "own_text d = (case map_of d ''text'' of Some (JStr s) \<Rightarrow> s @ '' '' | _ \<Rightarrow> [])"

definition attr_of :: "string \<Rightarrow> string \<Rightarrow> json \<Rightarrow> json list" where
  "attr_of tag key node =
     (case node of
        JObj d \<Rightarrow>
          (if map_of d ''type'' = Some (JStr tag) then
             (case map_of d ''attrs'' of
                Some (JObj a) \<Rightarrow> (case map_of a key of Some v \<Rightarrow> [v] | None \<Rightarrow> [])
              | _ \<Rightarrow> [])
           else [])
      | _ \<Rightarrow> [])"

definition marks_of :: "(string \<times> json) list \<Rightarrow> json list" where
  "marks_of d = (case map_of d ''marks'' of Some (JArr ms) \<Rightarrow> ms | _ \<Rightarrow> [])"

definition attrs_is_dict :: "json \<Rightarrow> bool" where
  "attrs_is_dict node =
     (case node of
        JObj d \<Rightarrow> (case map_of d ''attrs'' of None \<Rightarrow> True | Some (JObj a) \<Rightarrow> True | Some _ \<Rightarrow> False)
      | _ \<Rightarrow> False)"

definition well_typed :: "(string \<times> json) list \<Rightarrow> bool" where
  "well_typed d =
     ((case map_of d ''text'' of None \<Rightarrow> True | Some (JStr s) \<Rightarrow> True | Some _ \<Rightarrow> False) \<and>
      attrs_is_dict (JObj d) \<and>
      (case map_of d ''marks'' of None \<Rightarrow> True | Some (JArr ms) \<Rightarrow> list_all attrs_is_dict ms | Some _ \<Rightarrow> False))"

text \<open>A text with no white space at either end, and a child that contributes some text.\<close>

definition trimmed :: "string \<Rightarrow> bool" where
  "trimmed t = (t = [] \<or> (\<not> is_space (hd t) \<and> \<not> is_space (last t)))"

definition has_text :: "json \<Rightarrow> bool" where
  "has_text c = (case extract_text_and_links c of Inr (t, l) \<Rightarrow> t \<noteq> [] | Inl e \<Rightarrow> True)"

text \<open>
  The text of a node as the prose has it: the children's texts with a single space between
  them, then the node's own text.
\<close>

fun separated :: "string list \<Rightarrow> string" where
  "separated [] = []"
| "separated [t] = t"
| "separated (t # ts) = t @ '' '' @ separated ts"

definition claimed_text :: "string list \<Rightarrow> string option \<Rightarrow> string" where
  "claimed_text child_texts own = separated child_texts @ (case own of None \<Rightarrow> [] | Some t \<Rightarrow> t)"

text \<open>
  Scripts of the remote service for the scenarios below: a world that has sent nothing yet,
  a wiki result page with its \<^verbatim>\<open>next\<close> link, a page of issues, and a wiki page body made
  of one inline-card macro with a given \<^verbatim>\<open>data-card-url\<close>.
\<close>

definition script :: "response list \<Rightarrow> world" where
  "script rs = \<lparr>pending = rs, asked = [], slept = [], spaces_csv = None\<rparr>"

definition wiki_page :: "json list \<Rightarrow> json \<Rightarrow> response" where
  "wiki_page results next =
     Response 200 (Some (JObj [(''results'', JArr results), (''_links'', JObj [(''next'', next)])]))"

definition jira_page :: "json list \<Rightarrow> response" where
  "jira_page issues = Response 200 (Some (JObj [(''issues'', JArr issues)]))"

definition inline_card :: "string \<Rightarrow> string" where
  "inline_card url =
     ''<ac:structured-macro ac:name='' @ [CHR 0x22] @ ''inline-card'' @ [CHR 0x22] @
     '' data-card-url='' @ [CHR 0x22] @ url @ [CHR 0x22] @ ''/>''"

section \<open>Properties of the structured-content extractor\<close>

lemma ebind_simps [simp]: "ebind (Inl e) f = Inl e" "ebind (Inr x) f = f x"
  by (simp_all add: ebind_def)

lemma extract_items_acc:
  "extract_items cs tx ls =
     ebind (extract_items cs [] []) (\<lambda>(t, l). Inr (tx @ t, ls @ l))"
proof (induction cs arbitrary: tx ls)
  case Nil
  show ?case by simp
next
  case (Cons c cs)
  show ?case
  proof (cases "extract_text_and_links c")
    case (Inl e)
    then show ?thesis by simp
  next
    case (Inr r)
    obtain t l where r: "r = (t, l)" by (cases r)
    show ?thesis
      using Inr r Cons.IH [of "tx @ t @ '' ''" "ls @ l"] Cons.IH [of "t @ '' ''" l]
      by (cases "extract_items cs [] []") auto
  qed
qed

lemma extract_items_append:
  "extract_items (xs @ ys) tx ls =
     ebind (extract_items xs tx ls) (\<lambda>(t, l). extract_items ys t l)"
proof (induction xs arbitrary: tx ls)
  case Nil
  show ?case by simp
next
  case (Cons c cs)
  show ?case
    by (cases "extract_text_and_links c") (auto simp: Cons.IH)
qed

lemma extract_items_all:
  "list_all2 (\<lambda>c r. extract_text_and_links c = Inr r) cs rs \<Longrightarrow>
   extract_items cs tx ls =
     Inr (tx @ concat (map (\<lambda>r. fst r @ '' '') rs), ls @ concat (map snd rs))"
proof (induction cs rs arbitrary: tx ls rule: list_all2_induct)
  case Nil
  show ?case by simp
next
  case (Cons c cs r rs)
  then show ?case by (cases r) simp
qed

lemma tagged_link_attr_of:
  "attrs_is_dict (JObj d) \<Longrightarrow> tagged_link d tag key = Inr (attr_of tag key (JObj d))"
  by (auto simp: tagged_link_def attr_of_def attrs_is_dict_def split: option.splits json.splits)

lemma marks_loop_all:
  "list_all attrs_is_dict ms \<Longrightarrow>
   marks_loop ms ls = Inr (ls @ concat (map (attr_of ''link'' ''href'') ms))"
proof (induction ms arbitrary: ls)
  case Nil
  show ?case by simp
next
  case (Cons m ms)
  from Cons.prems obtain d where m: "m = JObj d"
    by (cases m) (auto simp: attrs_is_dict_def)
  with Cons.prems have "tagged_link d ''link'' ''href'' = Inr (attr_of ''link'' ''href'' m)"
    by (simp add: tagged_link_attr_of)
  with Cons m show ?case by simp
qed

lemma extract_object:
  assumes cs: "list_all2 (\<lambda>c r. extract_text_and_links c = Inr r) (children d) rs"
    and wt: "well_typed d"
  shows "extract_text_and_links (JObj d) =
           Inr (strip (concat (map (\<lambda>r. fst r @ '' '') rs) @ own_text d),
                concat (map snd rs) @ attr_of ''inlineCard'' ''url'' (JObj d) @
                concat (map (attr_of ''link'' ''href'') (marks_of d)))"
proof -
  have c: "(case map_of d ''content'' of Some (JArr items) \<Rightarrow> extract_items items [] []
            | _ \<Rightarrow> Inr ([], [])) =
           Inr (concat (map (\<lambda>r. fst r @ '' '') rs), concat (map snd rs))"
    using cs extract_items_all [of "children d" rs "[]" "[]"]
    by (auto simp: children_def split: option.splits json.splits)
  have t: "(case map_of d ''text'' of None \<Rightarrow> Inr text1
            | Some (JStr s) \<Rightarrow> Inr (text1 @ s @ '' '') | Some _ \<Rightarrow> Inl TypeError) =
           Inr (text1 @ own_text d)" for text1
    using wt by (auto simp: well_typed_def own_text_def split: option.splits json.splits)
  have a: "tagged_link d ''inlineCard'' ''url'' = Inr (attr_of ''inlineCard'' ''url'' (JObj d))"
    using wt by (simp add: well_typed_def tagged_link_attr_of)
  have m: "(case map_of d ''marks'' of None \<Rightarrow> Inr l0
            | Some ms \<Rightarrow> ebind (py_iter ms) (\<lambda>marks. marks_loop marks l0)) =
           Inr (l0 @ concat (map (attr_of ''link'' ''href'') (marks_of d)))" for l0
    using wt by (auto simp: well_typed_def marks_of_def marks_loop_all split: option.splits json.splits)
  show ?thesis
    by (simp add: c t a m)
qed

lemma extract_list:
  assumes "list_all2 (\<lambda>c r. extract_text_and_links c = Inr r) cs rs"
  shows "extract_text_and_links (JArr cs) =
           Inr (strip (concat (map (\<lambda>r. fst r @ '' '') rs)), concat (map snd rs))"
  using extract_items_all [OF assms, of "[]" "[]"] by simp

lemma strip_Nil: "strip [] = []"
  by (simp add: strip_def)

text \<open>
  C1 (as the code has it). When the children of an object node are extracted without an
  exception and the node is well typed, its text is the children's texts, each followed by
  one space, then its own text followed by one space, the whole stripped of white space at
  both ends; its links are the children's links in order, then \<open>attrs.url\<close> when its type is
  \<open>inlineCard\<close>, then \<open>attrs.href\<close> of each mark of type \<open>link\<close>. A list node is the same
  without the node's own part, and a scalar gives the empty text and no link.
\<close>

theorem extract_text_and_links_shape:
  "(list_all2 (\<lambda>c r. extract_text_and_links c = Inr r) (children d) rs \<and> well_typed d \<longrightarrow>
      extract_text_and_links (JObj d) =
        Inr (strip (concat (map (\<lambda>r. fst r @ '' '') rs) @ own_text d),
             concat (map snd rs) @ attr_of ''inlineCard'' ''url'' (JObj d) @
             concat (map (attr_of ''link'' ''href'') (marks_of d)))) \<and>
   (list_all2 (\<lambda>c r. extract_text_and_links c = Inr r) cs rs' \<longrightarrow>
      extract_text_and_links (JArr cs) =
        Inr (strip (concat (map (\<lambda>r. fst r @ '' '') rs')), concat (map snd rs'))) \<and>
   ((\<forall>d. v \<noteq> JObj d) \<and> (\<forall>cs. v \<noteq> JArr cs) \<longrightarrow> extract_text_and_links v = Inr ([], []))"
proof (intro conjI impI)
  assume h: "list_all2 (\<lambda>c r. extract_text_and_links c = Inr r) (children d) rs \<and> well_typed d"
  show "extract_text_and_links (JObj d) =
        Inr (strip (concat (map (\<lambda>r. fst r @ '' '') rs) @ own_text d),
             concat (map snd rs) @ attr_of ''inlineCard'' ''url'' (JObj d) @
             concat (map (attr_of ''link'' ''href'') (marks_of d)))"
    by (rule extract_object) (use h in simp_all)
next
  assume "list_all2 (\<lambda>c r. extract_text_and_links c = Inr r) cs rs'"
  then show "extract_text_and_links (JArr cs) =
        Inr (strip (concat (map (\<lambda>r. fst r @ '' '') rs')), concat (map snd rs'))"
    by (rule extract_list)
next
  assume "(\<forall>d. v \<noteq> JObj d) \<and> (\<forall>cs. v \<noteq> JArr cs)"
  then show "extract_text_and_links v = Inr ([], [])"
    by (cases v) (simp_all add: strip_Nil)
qed

theorem extract_text_and_links_shape_witness:
  "extract_text_and_links
     (JObj [(''content'', JArr [JObj [(''text'', JStr ''a'')]]), (''text'', JStr ''b''),
            (''type'', JStr ''inlineCard''), (''attrs'', JObj [(''url'', JStr ''u'')]),
            (''marks'', JArr [JObj [(''type'', JStr ''link''),
                                    (''attrs'', JObj [(''href'', JStr ''h'')])]])]) =
     Inr (''a b'', [JStr ''u'', JStr ''h'']) \<and>
   extract_text_and_links (JArr [JObj [(''text'', JStr ''a'')], JNull]) = Inr (''a'', []) \<and>
   extract_text_and_links JNull = Inr ([], [])"
proof -
  let ?d = "[(''content'', JArr [JObj [(''text'', JStr ''a'')]]), (''text'', JStr ''b''),
            (''type'', JStr ''inlineCard''), (''attrs'', JObj [(''url'', JStr ''u'')]),
            (''marks'', JArr [JObj [(''type'', JStr ''link''),
                                    (''attrs'', JObj [(''href'', JStr ''h'')])]])]"
  have a: "extract_text_and_links (JObj [(''text'', JStr ''a'')]) = Inr (''a'', [])"
    by (simp add: tagged_link_def strip_def is_space_def)
  have n: "extract_text_and_links JNull = Inr ([], [])"
    by (simp add: strip_def)
  have h1: "list_all2 (\<lambda>c r. extract_text_and_links c = Inr r) (children ?d) [(''a'', [])] \<and>
            well_typed ?d"
    using a by (simp add: children_def well_typed_def attrs_is_dict_def)
  have h2: "list_all2 (\<lambda>c r. extract_text_and_links c = Inr r)
              [JObj [(''text'', JStr ''a'')], JNull] [(''a'', []), ([], [])]"
    using a n by simp
  have h3: "(\<forall>d. JNull \<noteq> JObj d) \<and> (\<forall>cs. JNull \<noteq> JArr cs)"
    by simp
  show ?thesis
    using extract_text_and_links_shape
            [of ?d "[(''a'', [])]" "[JObj [(''text'', JStr ''a'')], JNull]"
                "[(''a'', []), ([], [])]" JNull] h1 h2 h3
    by (simp add: own_text_def attr_of_def marks_of_def strip_def is_space_def)
qed

text \<open>
  C1 as stated fails: the first child has the empty text, so the children's texts with a
  single space between them are \<open>'' a''\<close>, and the extractor returns \<open>''a''\<close>.
\<close>

theorem extract_text_not_joined_counterexample:
  "extract_text_and_links (JObj []) = Inr ([], []) \<and>
   extract_text_and_links (JObj [(''text'', JStr ''a'')]) = Inr (''a'', []) \<and>
   extract_text_and_links (JObj [(''content'', JArr [JObj [], JObj [(''text'', JStr ''a'')]])]) =
     Inr (''a'', []) \<and>
   claimed_text [[], ''a''] None = '' a''"
  by (simp add: tagged_link_def strip_def is_space_def claimed_text_def)

section \<open>Regrouping the children of a node\<close>

lemma last_dropWhile: "dropWhile P ys \<noteq> [] \<Longrightarrow> last (dropWhile P ys) = last ys"
  by (metis last_appendR takeWhile_dropWhile_id)

lemma trimmed_strip: "trimmed (strip s)"
proof -
  let ?a = "dropWhile is_space s"
  let ?b = "dropWhile is_space (rev ?a)"
  show ?thesis
  proof (cases "?b = []")
    case True
    then show ?thesis by (simp add: trimmed_def strip_def)
  next
    case False
    then have l: "\<not> is_space (hd ?b)" by (rule hd_dropWhile)
    from False have a: "?a \<noteq> []" by (metis dropWhile.simps(1) rev.simps(1))
    then have ha: "\<not> is_space (hd ?a)" by (rule hd_dropWhile)
    have "last ?b = last (rev ?a)" using False by (rule last_dropWhile)
    also have "\<dots> = hd ?a" using a by (simp add: last_rev)
    finally have "hd (rev ?b) = hd ?a" using False by (simp add: hd_rev)
    moreover have "last (rev ?b) = hd ?b" using False by (simp add: last_rev)
    ultimately show ?thesis using l ha by (simp add: trimmed_def strip_def)
  qed
qed

lemma strip_trailing_space:
  assumes "x \<noteq> []" "trimmed x"
  shows "strip (x @ '' '') = x"
proof -
  from assms have h: "\<not> is_space (hd x)" and l: "\<not> is_space (last x)"
    by (simp_all add: trimmed_def)
  from assms(1) h have 1: "dropWhile is_space (x @ '' '') = x @ '' ''"
    by (cases x) simp_all
  have sp: "is_space CHR '' ''" by (simp add: is_space_def)
  from assms(1) l have 2: "dropWhile is_space (rev x) = rev x"
    by (cases "rev x") (simp_all add: last_rev [symmetric] hd_rev)
  show ?thesis by (simp add: strip_def 1 2 sp)
qed

lemma extract_trimmed: "extract_text_and_links c = Inr (t, l) \<Longrightarrow> trimmed t"
  by (cases c) (auto simp: trimmed_strip ebind_def split: sum.splits prod.splits)

lemma extract_items_results:
  "extract_items cs [] [] = Inr (t, l) \<Longrightarrow>
   \<exists>rs. list_all2 (\<lambda>c r. extract_text_and_links c = Inr r) cs rs \<and>
        t = concat (map (\<lambda>r. fst r @ '' '') rs) \<and> l = concat (map snd rs)"
proof (induction cs arbitrary: t l)
  case Nil
  then show ?case by simp
next
  case (Cons c cs)
  from Cons.prems obtain r where r: "extract_text_and_links c = Inr r"
    by (cases "extract_text_and_links c") auto
  obtain t0 l0 where r0: "r = (t0, l0)" by (cases r)
  from Cons.prems r r0 have "extract_items cs (t0 @ '' '') l0 = Inr (t, l)" by simp
  then obtain t1 l1 where 1: "extract_items cs [] [] = Inr (t1, l1)"
    and tl: "t = t0 @ '' '' @ t1" "l = l0 @ l1"
    by (subst (asm) extract_items_acc) (auto simp: ebind_def split: sum.splits)
  from Cons.IH [OF 1] obtain rs where
    rs: "list_all2 (\<lambda>c r. extract_text_and_links c = Inr r) cs rs"
      "t1 = concat (map (\<lambda>r. fst r @ '' '') rs)" "l1 = concat (map snd rs)"
    by blast
  show ?case
    by (rule exI [of _ "r # rs"]) (simp add: r r0 rs tl)
qed

lemma strip_run:
  assumes part: "part \<noteq> []" "has_text (hd part)" "has_text (last part)"
    and ok: "extract_items part [] [] = Inr (t, l)"
  shows "strip t @ '' '' = t"
proof -
  from extract_items_results [OF ok] obtain rs where
    rs: "list_all2 (\<lambda>c r. extract_text_and_links c = Inr r) part rs"
    and t: "t = concat (map (\<lambda>r. fst r @ '' '') rs)"
    by blast
  from rs part(1) have ne: "rs \<noteq> []" by auto
  from rs have len: "length part = length rs" by (rule list_all2_lengthD)
  have nth: "extract_text_and_links (part ! i) = Inr (rs ! i)" if "i < length rs" for i
    using rs that by (simp add: list_all2_conv_all_nth)
  have first: "extract_text_and_links (hd part) = Inr (hd rs)"
    using nth [of 0] ne part(1) by (simp add: hd_conv_nth)
  have final: "extract_text_and_links (last part) = Inr (last rs)"
    using nth [of "length rs - 1"] ne part(1) len by (simp add: last_conv_nth)
  from first part(2) have f1: "fst (hd rs) \<noteq> []"
    by (cases "hd rs") (simp add: has_text_def)
  from final part(3) have f2: "fst (last rs) \<noteq> []"
    by (cases "last rs") (simp add: has_text_def)
  from first have t1: "trimmed (fst (hd rs))" by (cases "hd rs") (auto dest: extract_trimmed)
  from final have t2: "trimmed (fst (last rs))" by (cases "last rs") (auto dest: extract_trimmed)
  define x where "x = concat (map (\<lambda>r. fst r @ '' '') (butlast rs)) @ fst (last rs)"
  have "concat (map (\<lambda>r. fst r @ '' '') (butlast rs @ [last rs])) = x @ '' ''"
    unfolding x_def by simp
  with ne t have tx: "t = x @ '' ''" by simp
  have x: "x \<noteq> []" using f2 by (simp add: x_def)
  have lx: "last x = last (fst (last rs))" using f2 by (simp add: x_def)
  have hx: "hd x = hd (fst (hd rs))"
  proof (cases "butlast rs")
    case Nil
    with ne have "hd rs = last rs" by (cases rs) (auto split: if_splits)
    with Nil show ?thesis by (simp add: x_def)
  next
    case (Cons b bs)
    with ne have "hd rs = b" by (cases rs) (auto split: if_splits)
    with Cons f1 show ?thesis by (simp add: x_def)
  qed
  have "trimmed x"
    using x lx hx t1 t2 f1 f2 by (simp add: trimmed_def)
  with x show ?thesis by (simp add: tx strip_trailing_space)
qed

lemma extract_items_three:
  "extract_items (pre @ mid @ post) [] [] =
     ebind (extract_items pre [] []) (\<lambda>(t0, l0).
     ebind (extract_items mid [] []) (\<lambda>(t1, l1).
     ebind (extract_items post [] []) (\<lambda>(t2, l2).
       Inr (t0 @ t1 @ t2, l0 @ l1 @ l2))))"
proof -
  have "extract_items (pre @ mid @ post) [] [] =
     ebind (extract_items pre [] []) (\<lambda>(t0, l0).
     ebind (extract_items mid t0 l0) (\<lambda>(t1, l1). extract_items post t1 l1))"
    by (simp add: extract_items_append)
  also have "\<dots> = ebind (extract_items pre [] []) (\<lambda>(t0, l0).
     ebind (extract_items mid [] []) (\<lambda>(t1, l1).
     ebind (extract_items post [] []) (\<lambda>(t2, l2).
       Inr (t0 @ t1 @ t2, l0 @ l1 @ l2))))"
    apply (cases "extract_items pre [] []")
     apply simp
    apply (clarsimp)
    apply (subst extract_items_acc)
    apply (cases "extract_items mid [] []")
     apply simp
    apply clarsimp
    apply (subst extract_items_acc)
    apply (cases "extract_items post [] []")
     apply simp_all
    done
  finally show ?thesis .
qed

lemma extract_items_wrapped:
  "extract_items [JArr part] [] [] =
     ebind (extract_items part [] []) (\<lambda>(t, l). Inr (strip t @ '' '', l))"
  by (cases "extract_items part [] []") auto

lemma wrapped_items:
  "(\<exists>e. extract_items (pre @ [JArr part] @ post) [] [] = Inl e \<and>
        extract_items (pre @ part @ post) [] [] = Inl e) \<or>
   (\<exists>t t' l. extract_items (pre @ part @ post) [] [] = Inr (t, l) \<and>
        extract_items (pre @ [JArr part] @ post) [] [] = Inr (t', l) \<and>
        (part \<noteq> [] \<and> has_text (hd part) \<and> has_text (last part) \<longrightarrow> t' = t))"
proof (cases "extract_items pre [] []")
  note three = extract_items_three [of pre "[JArr part]" post] extract_items_three [of pre part post]
    extract_items_wrapped
  case Inl
  then show ?thesis unfolding three by simp
next
  case pre: (Inr r0)
  note three = extract_items_three [of pre "[JArr part]" post] extract_items_three [of pre part post]
    extract_items_wrapped
  show ?thesis
  proof (cases "extract_items part [] []")
    case Inl
    with pre show ?thesis
      unfolding three by (simp split: prod.splits)
  next
    case mid: (Inr r1)
    obtain t1 l1 where r1: "r1 = (t1, l1)" by (cases r1)
    have s: "part \<noteq> [] \<and> has_text (hd part) \<and> has_text (last part) \<Longrightarrow> strip t1 @ '' '' = t1"
      using strip_run [of part t1 l1] mid r1 by simp
    show ?thesis
    proof (cases "extract_items post [] []")
      case Inl
      with pre mid show ?thesis
        unfolding three by (simp split: prod.splits)
    next
      case (Inr r2)
      with pre mid r1 s show ?thesis
        unfolding three by (auto split: prod.splits)
    qed
  qed
qed

text \<open>
  C9 (as the code has it). Wrapping a run of consecutive children of a node in a nested
  list never changes the links, nor whether the extractor raises; it leaves the text
  unchanged too when the run is not empty and its first and last child have a non-empty
  text.
\<close>

theorem regrouping_content:
  assumes d: "map_of d ''content'' = Some (JArr (pre @ part @ post))"
    and d': "map_of d' = (map_of d)(''content'' \<mapsto> JArr (pre @ [JArr part] @ post))"
  shows "map_sum id snd (extract_text_and_links (JObj d')) =
           map_sum id snd (extract_text_and_links (JObj d)) \<and>
         (part \<noteq> [] \<and> has_text (hd part) \<and> has_text (last part) \<longrightarrow>
            extract_text_and_links (JObj d') = extract_text_and_links (JObj d))"
proof -
  have tl: "tagged_link d' tag key = tagged_link d tag key" for tag key
    by (simp add: tagged_link_def d')
  from wrapped_items [of pre part post] show ?thesis
  proof (elim disjE exE conjE)
    fix e
    assume "extract_items (pre @ [JArr part] @ post) [] [] = Inl e"
      "extract_items (pre @ part @ post) [] [] = Inl e"
    then show ?thesis by (simp add: d d' tl)
  next
    fix t t' l
    assume a: "extract_items (pre @ part @ post) [] [] = Inr (t, l)"
      "extract_items (pre @ [JArr part] @ post) [] [] = Inr (t', l)"
      "part \<noteq> [] \<and> has_text (hd part) \<and> has_text (last part) \<longrightarrow> t' = t"
    have 1: "map_sum id snd (extract_text_and_links (JObj d')) =
             map_sum id snd (extract_text_and_links (JObj d))"
      using a(1,2) by (simp add: d d' tl ebind_def split: option.splits json.splits sum.splits)
    have 2: "extract_text_and_links (JObj d') = extract_text_and_links (JObj d)" if "t' = t"
      using a(1,2) that by (simp add: d d' tl)
    from 1 2 a(3) show ?thesis by blast
  qed
qed

theorem regrouping_content_witness:
  "extract_text_and_links
     (JObj [(''content'', JArr [JArr [JObj [(''text'', JStr ''x'')], JObj [(''text'', JStr ''y'')]],
                                JObj [(''text'', JStr ''z'')]])]) =
   extract_text_and_links
     (JObj [(''content'', JArr [JObj [(''text'', JStr ''x'')], JObj [(''text'', JStr ''y'')],
                                JObj [(''text'', JStr ''z'')]])]) \<and>
   extract_text_and_links
     (JObj [(''content'', JArr [JObj [(''text'', JStr ''x'')], JObj [(''text'', JStr ''y'')],
                                JObj [(''text'', JStr ''z'')]])]) = Inr (''x y z'', [])"
proof -
  let ?x = "JObj [(''text'', JStr ''x'')]" and ?y = "JObj [(''text'', JStr ''y'')]"
    and ?z = "JObj [(''text'', JStr ''z'')]"
  let ?d = "[(''content'', JArr [?x, ?y, ?z])]" and ?d' = "[(''content'', JArr [JArr [?x, ?y], ?z])]"
  have h1: "map_of ?d ''content'' = Some (JArr ([] @ [?x, ?y] @ [?z]))"
    by simp
  have h2: "map_of ?d' = (map_of ?d)(''content'' \<mapsto> JArr ([] @ [JArr [?x, ?y]] @ [?z]))"
    by (rule ext) simp
  have h3: "[?x, ?y] \<noteq> [] \<and> has_text (hd [?x, ?y]) \<and> has_text (last [?x, ?y])"
    by (simp add: has_text_def tagged_link_def strip_def is_space_def)
  have "extract_text_and_links (JObj ?d) = Inr (''x y z'', [])"
    by (simp add: tagged_link_def strip_def is_space_def)
  with regrouping_content [OF h1 h2] h3 show ?thesis
    by simp
qed

text \<open>
  C9 as stated fails: the middle child has no text, and grouping it with the first one
  turns the two spaces between \<open>x\<close> and \<open>y\<close> into one.
\<close>

theorem regrouping_changes_text_counterexample:
  "extract_text_and_links
     (JObj [(''content'', JArr [JObj [(''text'', JStr ''x'')], JObj [],
                                JObj [(''text'', JStr ''y'')]])]) = Inr (''x  y'', []) \<and>
   extract_text_and_links
     (JObj [(''content'', JArr [JArr [JObj [(''text'', JStr ''x'')], JObj []],
                                JObj [(''text'', JStr ''y'')]])]) = Inr (''x y'', [])"
  by (simp add: tagged_link_def strip_def is_space_def)

section \<open>Properties of the fetcher\<close>

lemmas fetch_defs = confluence_request_def jira_request_def retry_call.simps request_body_def
  requests_get_def wait_exponential_def numeral_eq_Suc

lemma wait_values: "map (wait_exponential 1 2 10) [1, 2, 3, 4] = [2, 2, 4, 8]"
  by (simp add: wait_exponential_def)

lemma wait_bounds: "2 \<le> wait_exponential 1 2 10 n \<and> wait_exponential 1 2 10 n \<le> 10"
  by (simp add: wait_exponential_def)

lemma retry_five:
  assumes "pending w = Response 429 b1 # Response 429 b2 # Response 429 b3 # Response 429 b4 #
                       Response 429 b5 # rest"
  shows "retry_call 5 wt (request_body req) 1 w =
           (Inl (RetryError RateLimited),
            w\<lparr>pending := rest, asked := asked w @ replicate 5 req,
              slept := slept w @ map wt [1, 2, 3, 4]\<rparr>)"
  using assms
  by (simp add: retry_call.simps request_body_def requests_get_def numeral_eq_Suc)

text \<open>
  C6. When the service answers 429 to five requests in a row, both fetchers send exactly
  five requests, sleep 2, 2, 4 and 8 time units between them (every wait of the schedule
  is between 2 and 10), and raise: the caller gets the RetryError that wraps the rate-limit
  exception.
\<close>

theorem fetcher_retry_policy:
  assumes "pending w = Response 429 b1 # Response 429 b2 # Response 429 b3 # Response 429 b4 #
                       Response 429 b5 # rest"
  shows "confluence_request url params w =
           (Inl (RetryError RateLimited),
            w\<lparr>pending := rest, asked := asked w @ replicate 5 (WikiGet url params),
              slept := slept w @ [2, 2, 4, 8]\<rparr>) \<and>
         jira_request req w =
           (Inl (RetryError RateLimited),
            w\<lparr>pending := rest, asked := asked w @ replicate 5 req,
              slept := slept w @ [2, 2, 4, 8]\<rparr>) \<and>
         map (wait_exponential 1 2 10) [1, 2, 3, 4] = [2, 2, 4, 8] \<and>
         (\<forall>n. 2 \<le> wait_exponential 1 2 10 n \<and> wait_exponential 1 2 10 n \<le> 10)"
  using retry_five [OF assms] wait_values wait_bounds
  by (simp add: confluence_request_def jira_request_def)

theorem fetcher_retry_policy_witness:
  "confluence_request ''https://wiki/rest/api/space'' [(''limit'', JInt 100)]
     (script [Response 429 None, Response 429 None, Response 429 None, Response 429 None,
              Response 429 None]) =
     (Inl (RetryError RateLimited),
      \<lparr>pending = [],
       asked = replicate 5 (WikiGet ''https://wiki/rest/api/space'' [(''limit'', JInt 100)]),
       slept = [2, 2, 4, 8], spaces_csv = None\<rparr>) \<and>
   jira_request JiraProjects
     (script [Response 429 None, Response 429 None, Response 429 None, Response 429 None,
              Response 429 None]) =
     (Inl (RetryError RateLimited),
      \<lparr>pending = [], asked = replicate 5 JiraProjects, slept = [2, 2, 4, 8], spaces_csv = None\<rparr>)"
proof -
  have h: "pending (script [Response 429 None, Response 429 None, Response 429 None,
                            Response 429 None, Response 429 None]) =
           Response 429 None # Response 429 None # Response 429 None # Response 429 None #
           Response 429 None # []"
    by (simp add: script_def)
  show ?thesis
    using fetcher_retry_policy [OF h, of "''https://wiki/rest/api/space''" "[(''limit'', JInt 100)]"
        JiraProjects]
    by (simp add: script_def)
qed

section \<open>Properties of the paginators\<close>

text \<open>
  C3. Page 2 of 3 fails five times in a row. The wiki paginator returns the records of
  page 1. The issue paginator, on a first page of 100 issues, raises the RetryError to its
  caller instead of returning them.
\<close>

theorem paginator_page_two_fails:
  "fst (get_all_pages ''https://wiki'' (JStr ''DOC'')
         (script ([wiki_page [JStr ''page 1''] (JStr ''/next2'')] @ replicate 5 (Response 429 None) @
                  [wiki_page [JStr ''page 3''] JNull]))) = [JStr ''page 1''] \<and>
   fst (get_all_issues (JStr ''PRJ'')
         (script ([jira_page (replicate 100 (JStr ''issue''))] @ replicate 5 (Response 429 None) @
                  [jira_page [JStr ''last issue'']]))) = Inl (RetryError RateLimited)"
  by (simp add: get_all_pages_def cursor_loop.simps get_all_issues_def issues_loop.simps
        fetch_defs wiki_page_def jira_page_def script_def)

text \<open>
  C4. The second page has an empty result list. Both wiki paginators return the empty
  list: the record of the first page is dropped.
\<close>

theorem paginator_empty_page_drops_records:
  "fst (get_all_pages ''https://wiki'' (JStr ''DOC'')
         (script [wiki_page [JStr ''page 1''] (JStr ''/next2''), wiki_page [] JNull])) = [] \<and>
   fst (get_all_spaces ''https://wiki''
         (script [wiki_page [JObj [(''key'', JStr ''DOC''), (''name'', JStr ''Docs'')]] (JStr ''/next2''),
                  wiki_page [] JNull])) = Inr []"
  by (simp add: get_all_pages_def get_all_spaces_def cursor_loop.simps
        fetch_defs wiki_page_def script_def)

section \<open>Properties of the runs\<close>

text \<open>
  C7. In the issue-tracker run the first issue has a custom field whose \<^verbatim>\<open>text\<close> member is
  a number: the TypeError ends the run, and the second issue, which has a link, is never
  reached. In the wiki run a page without a body gives the sentinel row and the next page
  is processed.
\<close>

theorem item_exception_aborts_issue_run:
  "fst (process_jira (script
     [Response 200 (Some (JArr [JObj [(''key'', JStr ''PRJ'')]])),
      jira_page [JObj [(''key'', JStr ''PRJ-1''),
                       (''fields'', JObj [(''summary'', JStr ''one''),
                                          (''customfield_10050'', JObj [(''text'', JInt 42)])])],
                 JObj [(''key'', JStr ''PRJ-2''),
                       (''fields'', JObj [(''summary'', JStr ''see https://docs.google.com/d/1'')])]],
      Response 200 (Some (JArr [])), Response 200 (Some (JArr []))])) = Inl TypeError \<and>
   pages_process ''https://wiki'' (JStr ''DOC'')
     [JObj [(''id'', JStr ''1''), (''title'', JStr ''No body''),
            (''version'', JObj [(''when'', JStr ''2024'')])],
      JObj [(''id'', JStr ''2''), (''title'', JStr ''With link''),
            (''version'', JObj [(''when'', JStr ''2025'')]),
            (''body'', JObj [(''storage'', JObj [(''value'', JStr ''see https://docs.google.com/d/1 here'')])])]]
     [] =
   Inr [[Val (JStr ''DOC''), Val (JStr ''No body''), Txt ''ERROR'', Txt ''N/A'', Raised KeyError,
         Txt ''N/A''],
        [Val (JStr ''DOC''), Val (JStr ''With link''), Txt ''https://docs.google.com/d/1'',
         Kind Hardcoded, PageUrl ''https://wiki'' (JStr ''DOC'') (JStr ''2'') ''With-link'',
         Val (JStr ''2025'')]]"
  by code_simp

lemma extract_empty_string: "jira_extract_google_drive_links (JStr []) = Inr []"
  by code_simp

lemma extract_empty_dict: "jira_extract_google_drive_links (JObj []) = Inr []"
  by code_simp

text \<open>
  C8. An issue with an empty summary and nothing else, whose remote-link lookup returns one
  link: the issue adds one row labelled \<open>RemoteLink\<close> when the plain-text pattern is found
  in the link and no row otherwise; the pattern is found in the folder link of the
  scenario, and the run over one project with that one issue reports exactly that row.
\<close>

theorem remote_link_row:
  "process_issue project_key
     (JObj [(''key'', issue_key), (''fields'', JObj [(''summary'', JStr [])])]) results
     (w\<lparr>pending := Response 200 (Some (JArr [JObj [(''object'', JObj [(''url'', JStr link)])]])) #
                    rest\<rparr>) =
     (Inr (results @
           (if search JIRA_HARDLINK_REGEX link
            then [[Val project_key, Val issue_key, Val (JStr []), Val (JStr link), Src RemoteLink]]
            else [])),
      w\<lparr>pending := rest, asked := asked w @ [JiraRemoteLinks issue_key]\<rparr>) \<and>
   search JIRA_HARDLINK_REGEX ''https://drive.google.com/drive/folders/xyz'' \<and>
   fst (process_jira (script
     [Response 200 (Some (JArr [JObj [(''key'', JStr ''PRJ'')]])),
      jira_page [JObj [(''key'', JStr ''PRJ-1''), (''fields'', JObj [(''summary'', JStr [])])]],
      Response 200 (Some (JArr [JObj [(''object'',
         JObj [(''url'', JStr ''https://drive.google.com/drive/folders/xyz'')])]]))])) =
     Inr [[Val (JStr ''PRJ''), Val (JStr ''PRJ-1''), Val (JStr []),
           Val (JStr ''https://drive.google.com/drive/folders/xyz''), Src RemoteLink]]"
proof (intro conjI)
  show "process_issue project_key
     (JObj [(''key'', issue_key), (''fields'', JObj [(''summary'', JStr [])])]) results
     (w\<lparr>pending := Response 200 (Some (JArr [JObj [(''object'', JObj [(''url'', JStr link)])]])) #
                    rest\<rparr>) =
     (Inr (results @
           (if search JIRA_HARDLINK_REGEX link
            then [[Val project_key, Val issue_key, Val (JStr []), Val (JStr link), Src RemoteLink]]
            else [])),
      w\<lparr>pending := rest, asked := asked w @ [JiraRemoteLinks issue_key]\<rparr>)"
    by (simp add: process_issue_def get_issue_links_def get_or_def jira_rows_def
          extract_empty_string extract_empty_dict fetch_defs)
  show "search JIRA_HARDLINK_REGEX ''https://drive.google.com/drive/folders/xyz''"
    by code_simp
  show "fst (process_jira (script
     [Response 200 (Some (JArr [JObj [(''key'', JStr ''PRJ'')]])),
      jira_page [JObj [(''key'', JStr ''PRJ-1''), (''fields'', JObj [(''summary'', JStr [])])]],
      Response 200 (Some (JArr [JObj [(''object'',
         JObj [(''url'', JStr ''https://drive.google.com/drive/folders/xyz'')])]]))])) =
     Inr [[Val (JStr ''PRJ''), Val (JStr ''PRJ-1''), Val (JStr []),
           Val (JStr ''https://drive.google.com/drive/folders/xyz''), Src RemoteLink]]"
    by code_simp
qed

section \<open>Properties of the wiki classifier\<close>

text \<open>
  C5. The body is one inline-card macro whose \<^verbatim>\<open>data-card-url\<close> is a docs.google.com
  document. The markup pattern asks for drive.google.com and does not match; the only
  match is the plain-text one, which runs on through the closing quote and \<^verbatim>\<open>/>\<close>.
\<close>

theorem smart_link_docs_not_recognised:
  "wiki_extract_google_drive_links (JStr (inline_card ''https://docs.google.com/document/d/abc'')) =
     Inr [(''https://docs.google.com/document/d/abc'' @ [CHR 0x22] @ ''/>'', Hardcoded)]"
  by code_simp

end
